theory Spec2Isabelle
  imports Complex_Main "HOL-Library.AList" "HOL-Library.Multiset"
begin

section \<open>Data model of the outfit catalogue service (main.py)\<close>

text \<open>
  The service keeps two process-wide variables, \<open>index\<close> (a flat L2 vector index) and
  \<open>metadata\<close> (a Python list of dicts), and three files: \<open>image_comments.json\<close>,
  \<open>faiss_index.index\<close> and \<open>metadata.json\<close>, next to the directory of uploaded images.
  Every request handler is modelled as a function from the state before the call to the
  state after it, paired with the outcome: \<open>Inl\<close> an exception that leaves the handler,
  \<open>Inr\<close> the value it returns. An exception keeps the part of the state that was already
  written, as the Python does.

  Idealisations, all stated here once: numbers are exact reals (float32 rounding and NaN
  are not represented); a character is a Unicode code point below 256, so text outside
  Latin-1 lies outside the model; the JSON files hold values of the shape the program
  itself writes (or are absent, or do not parse); the paths of uploaded images do not alias
  the three store files; the CLIP and YOLOS models are parameters. Writing a file always
  succeeds in the model: the raising paths of a handler are its reads, the JSON parsing,
  the dictionary lookup and the models. What is stated about AddItem below is therefore
  stated about calls that return.
\<close>

type_synonym vec = "real list"
type_synonym bytes = string

datatype exn =
    FileNotFoundError string
  | JSONDecodeError string
  | KeyError string
  | IndexError
  | RequestValidationError
  | ModelError string
  | CvError

text \<open>
  \<open>repr\<close> of a string: double quotes when the string has an apostrophe and no double
  quote, single quotes otherwise. The quote in use and the backslash are escaped with a
  backslash; tab, newline and carriage return are written as a backslash and the letter
  t, n or r; every other code point that is not printable is written as a backslash, the
  letter x and two hexadecimal digits.
\<close>

definition hex_digit :: "nat \<Rightarrow> char" where
  "hex_digit n = ''0123456789abcdef'' ! n"

definition hex_escape :: "char \<Rightarrow> string" where
  "hex_escape c = [CHR 0x5C, CHR ''x'', hex_digit (of_char c div 16), hex_digit (of_char c mod 16)]"

definition isprintable :: "char \<Rightarrow> bool" where
  "isprintable c =
     (let n = (of_char c :: nat)
      in (0x20 \<le> n \<and> n < 0x7F) \<or> (0xA1 \<le> n \<and> n \<noteq> 0xAD))"

definition repr_char :: "char \<Rightarrow> char \<Rightarrow> string" where
  "repr_char quote c =
     (if c = quote \<or> c = CHR 0x5C then [CHR 0x5C, c]
      else if c = CHR 0x09 then [CHR 0x5C, CHR ''t'']
      else if c = CHR 0x0A then [CHR 0x5C, CHR ''n'']
      else if c = CHR 0x0D then [CHR 0x5C, CHR ''r'']
      else if isprintable c then [c]
      else hex_escape c)"

definition py_repr :: "string \<Rightarrow> string" where
  "py_repr s =
     (let quote = (if CHR 0x27 \<in> set s \<and> CHR 0x22 \<notin> set s then CHR 0x22 else CHR 0x27)
      in [quote] @ concat (map (repr_char quote) s) @ [quote])"

text \<open>
  \<open>str(e)\<close>, as \<open>delete_item\<close> puts it into its payload: an \<open>OSError\<close> prints its file
  name with \<open>repr\<close>, and the text of a \<open>KeyError\<close> is the \<open>repr\<close> of the key.
\<close>

fun exn_str :: "exn \<Rightarrow> string" where
  "exn_str (FileNotFoundError p) = ''[Errno 2] No such file or directory: '' @ py_repr p"
| "exn_str (JSONDecodeError m) = m"
| "exn_str (KeyError k) = py_repr k"
| "exn_str IndexError = ''list index out of range''"
| "exn_str RequestValidationError = ''validation error''"
| "exn_str (ModelError m) = m"
| "exn_str CvError = ''OpenCV error''"

datatype response = Message string | ErrorPayload string

record item =
  filename :: string
  comment :: string
  tags :: "string list"

text \<open>
  A value of \<open>image_comments.json\<close>: the legacy format is a bare string, the current one a
  dict read with \<open>data.get("comment", "")\<close> and \<open>data.get("tags", [])\<close>.
\<close>

datatype entry = Legacy string | Entry "string option" "string list option"

datatype 'a disk_file = Absent | Malformed string | Content 'a

record state =
  index :: "vec list"
  metadata :: "item list"
  image_dir :: "string \<rightharpoonup> bytes"
  comments_file :: "(string \<times> entry) list disk_file"
  index_file :: "vec list disk_file"
  metadata_file :: "item list disk_file"

definition IMAGE_DIR :: string where
  "IMAGE_DIR = ''images''"

definition COMMENTS_FILE :: string where
  "COMMENTS_FILE = ''image_comments.json''"

text \<open>\<open>os.path.join(a, b)\<close> for a directory name \<open>a\<close> without a trailing slash.\<close>

definition os_path_join :: "string \<Rightarrow> string \<Rightarrow> string" where
  "os_path_join a b = (case b of [] \<Rightarrow> a @ ''/'' | c # _ \<Rightarrow> if c = CHR ''/'' then b else a @ ''/'' @ b)"

subsection \<open>Strings: \<open>split\<close>, \<open>strip\<close>, \<open>join\<close>\<close>

text \<open>\<open>str.isspace\<close> on the code points below 256.\<close>

definition isspace :: "char \<Rightarrow> bool" where
  "isspace c = (c \<in> set [CHR 0x09, CHR 0x0A, CHR 0x0B, CHR 0x0C, CHR 0x0D,
                          CHR 0x1C, CHR 0x1D, CHR 0x1E, CHR 0x1F, CHR 0x20,
                          CHR 0x85, CHR 0xA0])"

definition strip :: "string \<Rightarrow> string" where
  "strip s = rev (dropWhile isspace (rev (dropWhile isspace s)))"

fun split :: "char \<Rightarrow> string \<Rightarrow> string list" where
  "split sep [] = [[]]"
| "split sep (c # cs) =
     (if c = sep then [] # split sep cs
      else (case split sep cs of w # ws \<Rightarrow> (c # w) # ws | [] \<Rightarrow> [[c]]))"

fun join :: "string \<Rightarrow> string list \<Rightarrow> string" where
  "join sep [] = []"
| "join sep [x] = x"
| "join sep (x # y # ys) = x @ sep @ join sep (y # ys)"

text \<open>\<open>[t.strip() for t in tags.split(",") if t.strip()]\<close>\<close>

definition tag_list_of :: "string \<Rightarrow> string list" where
  "tag_list_of tgs = filter (\<lambda>t. t \<noteq> []) (map strip (split (CHR '','') tgs))"

text \<open>\<open>f"{comment} {' '.join(tags)}"\<close>\<close>

definition combined_text :: "string \<Rightarrow> string list \<Rightarrow> string" where
  "combined_text c ts = c @ '' '' @ join '' '' ts"

section \<open>Embedding provider\<close>

text \<open>
  The CLIP processor and model are opaque. \<open>clip_model P img txt\<close> stands for opening the
  image, running \<open>processor(text=[txt], images=img, padding=True)\<close> and the model, and
  reading \<open>image_embeds[0]\<close> and \<open>text_embeds[0]\<close>; \<open>clip_image_features P img\<close> for
  \<open>model.get_image_features\<close> on the image alone. Either may raise.
\<close>

record provider =
  clip_model :: "bytes \<Rightarrow> string \<Rightarrow> exn + (vec \<times> vec)"
  clip_image_features :: "bytes \<Rightarrow> exn + vec"

text \<open>\<open>np.linalg.norm\<close> and the element-wise operations of numpy.\<close>

definition linalg_norm :: "vec \<Rightarrow> real" where
  "linalg_norm v = sqrt (sum_list (map (\<lambda>x. x * x) v))"

definition vec_div :: "vec \<Rightarrow> real \<Rightarrow> vec" where
  "vec_div v c = map (\<lambda>x. x / c) v"

definition vec_add :: "vec \<Rightarrow> vec \<Rightarrow> vec" where
  "vec_add a b = map2 (+) a b"

text \<open>Lines 145-146 and 269-270: the same expression in both handlers.\<close>

definition combined_emb :: "vec \<Rightarrow> vec \<Rightarrow> vec" where
  "combined_emb image_emb text_emb =
     vec_div (vec_add (vec_div image_emb (linalg_norm image_emb))
                      (vec_div text_emb (linalg_norm text_emb))) 2"

definition process_image_text_pair ::
  "provider \<Rightarrow> (string \<rightharpoonup> bytes) \<Rightarrow> string \<Rightarrow> string \<Rightarrow> exn + vec" where
  "process_image_text_pair P files image_path text =
     (case files image_path of
        None \<Rightarrow> Inl (FileNotFoundError image_path)
      | Some img \<Rightarrow>
          (case clip_model P img text of
             Inl e \<Rightarrow> Inl e
           | Inr (image_emb, text_emb) \<Rightarrow> Inr (combined_emb image_emb text_emb)))"

text \<open>The query embedding of \<open>search_image\<close> (lines 255-283).\<close>

definition query_emb :: "provider \<Rightarrow> bytes \<Rightarrow> string \<Rightarrow> exn + vec" where
  "query_emb P img cmt =
     (if cmt \<noteq> [] then
        (case clip_model P img cmt of
           Inl e \<Rightarrow> Inl e
         | Inr (image_emb, text_emb) \<Rightarrow>
             Inr (vec_div (vec_add (vec_div image_emb (linalg_norm image_emb))
                                   (vec_div text_emb (linalg_norm text_emb))) 2))
      else
        (case clip_image_features P img of
           Inl e \<Rightarrow> Inl e
         | Inr image_emb \<Rightarrow> Inr (vec_div image_emb (linalg_norm image_emb))))"

section \<open>Vector index\<close>

text \<open>
  \<open>faiss.IndexFlatL2\<close>: \<open>add\<close> appends, \<open>reset\<close> empties, and \<open>search(q, k)\<close> returns
  exactly \<open>k\<close> pairs of squared distance and position, nearest first; when the index holds
  fewer than \<open>k\<close> vectors the library pads the result with position \<open>-1\<close> and the largest
  float32 as distance.
\<close>

definition l2sqr :: "vec \<Rightarrow> vec \<Rightarrow> real" where
  "l2sqr q v = sum_list (map2 (\<lambda>a b. (a - b) * (a - b)) q v)"

definition FLT_MAX :: real where
  "FLT_MAX = 340282346638528859811704183484516925440"

text \<open>Every stored vector with its squared distance to the query and its position.\<close>

definition scored :: "vec list \<Rightarrow> vec \<Rightarrow> (real \<times> int) list" where
  "scored ix q = map (\<lambda>(i, v). (l2sqr q v, int i)) (enumerate 0 ix)"

definition index_search :: "vec list \<Rightarrow> vec \<Rightarrow> nat \<Rightarrow> (real \<times> int) list" where
  "index_search ix q k =
     (let found = take k (sort_key fst (scored ix q))
      in found @ replicate (k - length found) (FLT_MAX, - 1))"

section \<open>Start-up (lines 117-122)\<close>

definition startup :: "state \<Rightarrow> exn + state" where
  "startup disk =
     (case index_file disk of
        Absent \<Rightarrow> Inr (disk\<lparr>index := [], metadata := []\<rparr>)
      | Malformed m \<Rightarrow> Inl (ModelError m)
      | Content ix \<Rightarrow>
          (case metadata_file disk of
             Absent \<Rightarrow> Inl (FileNotFoundError ''metadata.json'')
           | Malformed m \<Rightarrow> Inl (JSONDecodeError m)
           | Content md \<Rightarrow> Inr (disk\<lparr>index := ix, metadata := md\<rparr>)))"

section \<open>AddItem\<close>

text \<open>
  The handler of lines 149-195. The writes of lines 158, 175-176 and 191-193 are taken to
  succeed, so the exceptions of this function are the JSON parse of line 168 and the
  embedding of line 180; both leave the image written, the second also the catalogue.
\<close>

definition add_item ::
  "provider \<Rightarrow> state \<Rightarrow> string \<Rightarrow> bytes \<Rightarrow> string \<Rightarrow> string \<Rightarrow> state \<times> (exn + response)" where
  "add_item P s fname img cmt tgs =
     (let image_path = os_path_join IMAGE_DIR fname;
          s1 = s\<lparr>image_dir := (image_dir s)(image_path \<mapsto> img)\<rparr>;
          tag_list = tag_list_of tgs
      in case (case comments_file s1 of
                 Absent \<Rightarrow> Inr []
               | Malformed m \<Rightarrow> Inl (JSONDecodeError m)
               | Content d \<Rightarrow> Inr d) of
           Inl e \<Rightarrow> (s1, Inl e)
         | Inr comments_data \<Rightarrow>
             (let s2 = s1\<lparr>comments_file :=
                           Content (AList.update fname (Entry (Some cmt) (Some tag_list)) comments_data)\<rparr>
              in case process_image_text_pair P (image_dir s2) image_path (combined_text cmt tag_list) of
                   Inl e \<Rightarrow> (s2, Inl e)
                 | Inr emb \<Rightarrow>
                     (let ix = index s2 @ [emb];
                          md = metadata s2 @ [\<lparr>filename = fname, comment = cmt, tags = tag_list\<rparr>]
                      in (s2\<lparr>index := ix, metadata := md,
                             index_file := Content ix, metadata_file := Content md\<rparr>,
                          Inr (Message ''Item added successfully'')))))"

section \<open>RebuildIndex\<close>

fun rebuild_loop ::
  "provider \<Rightarrow> (string \<rightharpoonup> bytes) \<Rightarrow> (string \<times> entry) list \<Rightarrow> exn + (vec list \<times> item list)" where
  "rebuild_loop P files [] = Inr ([], [])"
| "rebuild_loop P files ((fname, data) # rest) =
     (let cmt = (case data of Legacy str \<Rightarrow> str
                 | Entry c _ \<Rightarrow> (case c of None \<Rightarrow> [] | Some x \<Rightarrow> x));
          tgs = (case data of Legacy str \<Rightarrow> []
                 | Entry _ t \<Rightarrow> (case t of None \<Rightarrow> [] | Some x \<Rightarrow> x));
          image_path = os_path_join IMAGE_DIR fname
      in if files image_path = None then rebuild_loop P files rest
         else (case process_image_text_pair P files image_path (combined_text cmt tgs) of
                 Inl e \<Rightarrow> Inl e
               | Inr emb \<Rightarrow>
                   (case rebuild_loop P files rest of
                      Inl e \<Rightarrow> Inl e
                    | Inr (embeddings, new_metadata) \<Rightarrow>
                        Inr (emb # embeddings,
                             \<lparr>filename = fname, comment = cmt, tags = tgs\<rparr> # new_metadata))))"

definition rebuild_index :: "provider \<Rightarrow> state \<Rightarrow> state \<times> (exn + response)" where
  "rebuild_index P s =
     (let s1 = s\<lparr>index := [], metadata := []\<rparr>
      in case comments_file s1 of
           Absent \<Rightarrow> (s1, Inr (Message ''Index rebuilt successfully''))
         | Malformed m \<Rightarrow> (s1, Inl (JSONDecodeError m))
         | Content comments_data \<Rightarrow>
             (case rebuild_loop P (image_dir s1) comments_data of
                Inl e \<Rightarrow> (s1, Inl e)
              | Inr (embeddings, new_metadata) \<Rightarrow>
                  (let s2 = (if embeddings \<noteq> []
                             then s1\<lparr>index := embeddings, index_file := Content embeddings,
                                     metadata_file := Content new_metadata\<rparr>
                             else s1)
                   in (s2\<lparr>metadata := new_metadata\<rparr>,
                       Inr (Message ''Index rebuilt successfully'')))))"

section \<open>Search\<close>

datatype pyfloat = Finite real | PosInf | NegInf | NaN

text \<open>\<open>d <= max_distance\<close> for a finite distance \<open>d\<close>.\<close>

fun float_le :: "real \<Rightarrow> pyfloat \<Rightarrow> bool" where
  "float_le d (Finite m) = (d \<le> m)"
| "float_le d PosInf = True"
| "float_le d NegInf = False"
| "float_le d NaN = False"

text \<open>Python list indexing: a negative index counts from the end, out of range raises.\<close>

definition py_getitem :: "'a list \<Rightarrow> int \<Rightarrow> exn + 'a" where
  "py_getitem xs i =
     (if 0 \<le> i \<and> i < int (length xs) then Inr (xs ! nat i)
      else if i < 0 \<and> - int (length xs) \<le> i then Inr (xs ! nat (int (length xs) + i))
      else Inl IndexError)"

text \<open>The list comprehension of lines 287-291.\<close>

fun results_of :: "item list \<Rightarrow> pyfloat \<Rightarrow> (real \<times> int) list \<Rightarrow> exn + item list" where
  "results_of md max_distance [] = Inr []"
| "results_of md max_distance ((d, idx) # rest) =
     (if float_le d max_distance \<and> idx < int (length md)
      then (case py_getitem md idx of
              Inl e \<Rightarrow> Inl e
            | Inr it \<Rightarrow>
                (case results_of md max_distance rest of
                   Inl e \<Rightarrow> Inl e
                 | Inr r \<Rightarrow> Inr (it # r)))
      else results_of md max_distance rest)"

text \<open>\<open>k: int = Query(3, ge=1, le=50)\<close> is checked before the handler body runs.\<close>

definition search_image ::
  "provider \<Rightarrow> state \<Rightarrow> bytes \<Rightarrow> string \<Rightarrow> int \<Rightarrow> pyfloat \<Rightarrow> exn + item list" where
  "search_image P s img cmt k max_distance =
     (if k < 1 \<or> 50 < k then Inl RequestValidationError
      else (case query_emb P img cmt of
              Inl e \<Rightarrow> Inl e
            | Inr q \<Rightarrow> results_of (metadata s) max_distance (index_search (index s) q (nat k))))"

section \<open>DeleteItem\<close>

fun embed_items :: "provider \<Rightarrow> (string \<rightharpoonup> bytes) \<Rightarrow> item list \<Rightarrow> exn + vec list" where
  "embed_items P files [] = Inr []"
| "embed_items P files (it # its) =
     (case process_image_text_pair P files (os_path_join IMAGE_DIR (filename it))
             (combined_text (comment it) (tags it)) of
        Inl e \<Rightarrow> Inl e
      | Inr emb \<Rightarrow>
          (case embed_items P files its of
             Inl e \<Rightarrow> Inl e
           | Inr embs \<Rightarrow> Inr (emb # embs)))"

text \<open>The body of the \<open>try\<close> block (lines 330-358).\<close>

definition delete_item_try :: "provider \<Rightarrow> state \<Rightarrow> string \<Rightarrow> state \<times> (exn + response)" where
  "delete_item_try P s fname =
     (let image_path = os_path_join IMAGE_DIR fname;
          s1 = s\<lparr>image_dir := (image_dir s)(image_path := None)\<rparr>
      in case comments_file s1 of
           Absent \<Rightarrow> (s1, Inl (FileNotFoundError COMMENTS_FILE))
         | Malformed m \<Rightarrow> (s1, Inl (JSONDecodeError m))
         | Content comments_data \<Rightarrow>
             (if fname \<notin> fst ` set comments_data then (s1, Inl (KeyError fname))
              else
                (let md = filter (\<lambda>it. filename it \<noteq> fname) (metadata s1);
                     s2 = s1\<lparr>comments_file := Content (AList.delete fname comments_data),
                             metadata := md, metadata_file := Content md\<rparr>;
                     s3 = s2\<lparr>index := []\<rparr>
                 in if md \<noteq> [] then
                      (case embed_items P (image_dir s3) md of
                         Inl e \<Rightarrow> (s3, Inl e)
                       | Inr embeddings \<Rightarrow>
                           (s3\<lparr>index := embeddings, index_file := Content embeddings\<rparr>,
                            Inr (Message ''Item deleted successfully'')))
                    else (s3, Inr (Message ''Item deleted successfully'')))))"

text \<open>\<open>except Exception as e: return {"error": str(e)}\<close>\<close>

definition delete_item :: "provider \<Rightarrow> state \<Rightarrow> string \<Rightarrow> state \<times> (exn + response)" where
  "delete_item P s fname =
     (case delete_item_try P s fname of
        (s', Inl e) \<Rightarrow> (s', Inr (ErrorPayload (exn_str e)))
      | (s', Inr r) \<Rightarrow> (s', Inr r))"

section \<open>AnalyzeOutfit\<close>

record labelled =
  category :: string
  confidence :: real

record component = labelled +
  bbox :: "real \<times> real \<times> real \<times> real"

record segment = labelled +
  segment_path :: string

text \<open>
  \<open>segment_clothing\<close> is the YOLOS detector behind an opaque parameter: from the bytes of
  the upload it yields the detections and the shape \<open>(h, w)\<close> of the decoded image, or raises.
  \<open>uuid n\<close> is the \<open>n\<close>-th value \<open>uuid.uuid4()\<close> yields during the call.
\<close>

record detector =
  segment_clothing :: "bytes \<Rightarrow> exn + (component list \<times> nat \<times> nat)"

definition excluded_categories :: "string set" where
  "excluded_categories = set
     [''headband, head covering, hair accessory'', ''hood'', ''collar'', ''lapel'', ''epaulette'',
      ''sleeve'', ''pocket'', ''neckline'', ''buckle'', ''zipper'', ''applique'',
      ''bead'', ''bow'', ''flower'', ''fringe'', ''ribbon'',
      ''rivet'', ''ruffle'', ''sequin'', ''tassel'']"

text \<open>\<open>int(x)\<close> on a float truncates towards zero.\<close>

definition py_int :: "real \<Rightarrow> int" where
  "py_int x = (if 0 \<le> x then \<lfloor>x\<rfloor> else \<lceil>x\<rceil>)"

text \<open>The number of rows a slice \<open>[a:b]\<close> selects from an axis of length \<open>n\<close>.\<close>

definition slice_len :: "nat \<Rightarrow> int \<Rightarrow> int \<Rightarrow> nat" where
  "slice_len n a b =
     (let clamp = (\<lambda>i. if i < 0 then max (i + int n) 0 else min i (int n))
      in nat (clamp b - clamp a))"

text \<open>
  The loop of lines 73-94 over the detections, with the tracker dict as an association
  list in insertion order. \<open>cv2.imwrite\<close> raises on an empty crop.
\<close>

fun track ::
  "(nat \<Rightarrow> string) \<Rightarrow> nat \<times> nat \<Rightarrow> component list \<Rightarrow> nat \<Rightarrow> (string \<times> segment) list
     \<Rightarrow> exn + (string \<times> segment) list" where
  "track uuid shape [] n category_tracker = Inr category_tracker"
| "track uuid shape (det # dets) n category_tracker =
     (if 0.75 \<le> confidence det \<and> category det \<notin> excluded_categories then
        (let current_category = category det; current_conf = confidence det
         in if (case map_of category_tracker current_category of
                  None \<Rightarrow> True
                | Some t \<Rightarrow> confidence t < current_conf)
            then (case bbox det of
                    (bx1, by1, bx2, by2) \<Rightarrow>
                      if slice_len (fst shape) (py_int by1) (py_int by2) = 0 \<or>
                         slice_len (snd shape) (py_int bx1) (py_int bx2) = 0
                      then Inl CvError
                      else track uuid shape dets (Suc n)
                             (AList.update current_category
                                \<lparr>category = current_category, confidence = current_conf,
                                 segment_path = ''segments/'' @ uuid n @ ''.jpg''\<rparr>
                                category_tracker))
            else track uuid shape dets n category_tracker)
      else track uuid shape dets n category_tracker)"

definition analyze_outfit :: "detector \<Rightarrow> (nat \<Rightarrow> string) \<Rightarrow> bytes \<Rightarrow> exn + segment list" where
  "analyze_outfit D uuid img =
     (case segment_clothing D img of
        Inl e \<Rightarrow> Inl e
      | Inr (components, shape) \<Rightarrow>
          (case track uuid shape components 1 [] of
             Inl e \<Rightarrow> Inl e
           | Inr category_tracker \<Rightarrow> Inr (map snd category_tracker)))"

section \<open>The fused embedding, as the specification words it\<close>

text \<open>
  These two definitions follow the specification, not the code: an embedding is
  L2-normalised by dividing every component by the Euclidean norm, and the fused embedding
  is the element-wise average of the normalised image and text embeddings. They are what
  the expressions of \<open>process_image_text_pair\<close> and \<open>search_image\<close> are compared with.
\<close>

definition l2_normalize :: "vec \<Rightarrow> vec" where
  "l2_normalize v = map (\<lambda>x. x / sqrt (\<Sum>y\<leftarrow>v. y\<^sup>2)) v"

definition fused_embedding :: "vec \<Rightarrow> vec \<Rightarrow> vec" where
  "fused_embedding a b = map (\<lambda>(x, y). (x + y) / 2) (zip (l2_normalize a) (l2_normalize b))"

section \<open>Concrete instances\<close>

text \<open>
  A provider that tells the image \<open>''A''\<close> from every other image, an empty
  installation, and the installation as it is found on disk after the only item of the
  catalogue was added, deleted again, and the process restarted.
\<close>

definition ex_provider :: provider where
  "ex_provider =
     \<lparr>clip_model = (\<lambda>img txt. if img = ''A'' then Inr ([3, 4], [0, 1]) else Inr ([4, 3], [1, 0])),
      clip_image_features = (\<lambda>img. if img = ''A'' then Inr [3, 4] else Inr [4, 3])\<rparr>"

definition ex_empty :: state where
  "ex_empty = \<lparr>index = [], metadata = [], image_dir = Map.empty, comments_file = Absent,
               index_file = Absent, metadata_file = Absent\<rparr>"

definition ex_restarted :: state where
  "ex_restarted = \<lparr>index = [[3/10, 9/10]], metadata = [], image_dir = Map.empty,
                   comments_file = Content [], index_file = Content [[3/10, 9/10]],
                   metadata_file = Content []\<rparr>"

text \<open>The installation after \<open>a.jpg\<close> and \<open>b.jpg\<close> were added to an empty one.\<close>

definition ex_two :: state where
  "ex_two = \<lparr>index = [[3/10, 9/10], [9/10, 3/10]],
             metadata = [\<lparr>filename = ''a.jpg'', comment = ''shirt'', tags = []\<rparr>,
                         \<lparr>filename = ''b.jpg'', comment = ''hat'', tags = []\<rparr>],
             image_dir = [''images/a.jpg'' \<mapsto> ''A'', ''images/b.jpg'' \<mapsto> ''B''],
             comments_file = Content [(''a.jpg'', Entry (Some ''shirt'') (Some [])),
                                      (''b.jpg'', Entry (Some ''hat'') (Some []))],
             index_file = Content [[3/10, 9/10], [9/10, 3/10]],
             metadata_file = Content [\<lparr>filename = ''a.jpg'', comment = ''shirt'', tags = []\<rparr>,
                                      \<lparr>filename = ''b.jpg'', comment = ''hat'', tags = []\<rparr>]\<rparr>"

text \<open>
  A detector that finds two shirts, a collar, a pair of pants below the threshold and a
  hat in a 100 by 100 image.
\<close>

definition ex_dets :: "component list" where
  "ex_dets =
     [\<lparr>category = ''shirt'', confidence = 8/10, bbox = (10, 10, 50, 50)\<rparr>,
      \<lparr>category = ''shirt'', confidence = 9/10, bbox = (12, 11, 52, 49)\<rparr>,
      \<lparr>category = ''collar'', confidence = 95/100, bbox = (20, 10, 30, 15)\<rparr>,
      \<lparr>category = ''pants'', confidence = 6/10, bbox = (10, 50, 50, 99)\<rparr>,
      \<lparr>category = ''hat'', confidence = 76/100, bbox = (20, 0, 40, 10)\<rparr>]"

definition ex_detector :: detector where
  "ex_detector = \<lparr>segment_clothing = (\<lambda>img. Inr (ex_dets, (100, 100)))\<rparr>"

definition ex_uuid :: "nat \<Rightarrow> string" where
  "ex_uuid n = (if n = 1 then ''u1'' else if n = 2 then ''u2'' else ''u3'')"

section \<open>Evaluation lemmas\<close>

lemma combined_emb_example: "combined_emb [3, 4] [0, 1] = [3/10, 9/10]"
  by (simp add: combined_emb_def vec_div_def vec_add_def linalg_norm_def)

lemma combined_emb_example2: "combined_emb [4, 3] [1, 0] = [9/10, 3/10]"
  by (simp add: combined_emb_def vec_div_def vec_add_def linalg_norm_def)

lemma tag_list_of_empty: "tag_list_of [] = []"
  by (simp add: tag_list_of_def strip_def)

lemma add_first_item:
  "add_item ex_provider ex_empty ''a.jpg'' ''A'' ''shirt'' [] =
     (\<lparr>index = [[3/10, 9/10]],
       metadata = [\<lparr>filename = ''a.jpg'', comment = ''shirt'', tags = []\<rparr>],
       image_dir = [''images/a.jpg'' \<mapsto> ''A''],
       comments_file = Content [(''a.jpg'', Entry (Some ''shirt'') (Some []))],
       index_file = Content [[3/10, 9/10]],
       metadata_file = Content [\<lparr>filename = ''a.jpg'', comment = ''shirt'', tags = []\<rparr>]\<rparr>,
      Inr (Message ''Item added successfully''))"
  by (simp add: add_item_def ex_provider_def ex_empty_def tag_list_of_empty os_path_join_def
      IMAGE_DIR_def process_image_text_pair_def combined_emb_example Let_def)

lemma add_delete_restart:
  "startup (fst (delete_item ex_provider
                   (fst (add_item ex_provider ex_empty ''a.jpg'' ''A'' ''shirt'' [])) ''a.jpg''))
     = Inr ex_restarted"
  unfolding add_first_item
  by (simp add: delete_item_def delete_item_try_def startup_def ex_restarted_def os_path_join_def
      IMAGE_DIR_def Let_def)

lemma add_after_restart:
  "add_item ex_provider ex_restarted ''b.jpg'' ''B'' ''hat'' [] =
     (ex_restarted\<lparr>index := [[3/10, 9/10], [9/10, 3/10]],
                   metadata := [\<lparr>filename = ''b.jpg'', comment = ''hat'', tags = []\<rparr>],
                   image_dir := [''images/b.jpg'' \<mapsto> ''B''],
                   comments_file := Content [(''b.jpg'', Entry (Some ''hat'') (Some []))],
                   index_file := Content [[3/10, 9/10], [9/10, 3/10]],
                   metadata_file := Content [\<lparr>filename = ''b.jpg'', comment = ''hat'', tags = []\<rparr>]\<rparr>,
      Inr (Message ''Item added successfully''))"
  by (simp add: add_item_def ex_provider_def ex_restarted_def tag_list_of_empty os_path_join_def
      IMAGE_DIR_def process_image_text_pair_def combined_emb_example2 Let_def)

lemma add_second_same:
  "add_item ex_provider (fst (add_item ex_provider ex_empty ''a.jpg'' ''A'' ''shirt'' []))
     ''a.jpg'' ''A'' ''blue shirt'' [] =
     (\<lparr>index = [[3/10, 9/10], [3/10, 9/10]],
       metadata = [\<lparr>filename = ''a.jpg'', comment = ''shirt'', tags = []\<rparr>,
                   \<lparr>filename = ''a.jpg'', comment = ''blue shirt'', tags = []\<rparr>],
       image_dir = [''images/a.jpg'' \<mapsto> ''A''],
       comments_file = Content [(''a.jpg'', Entry (Some ''blue shirt'') (Some []))],
       index_file = Content [[3/10, 9/10], [3/10, 9/10]],
       metadata_file = Content [\<lparr>filename = ''a.jpg'', comment = ''shirt'', tags = []\<rparr>,
                                \<lparr>filename = ''a.jpg'', comment = ''blue shirt'', tags = []\<rparr>]\<rparr>,
      Inr (Message ''Item added successfully''))"
  unfolding add_first_item
  by (simp add: add_item_def ex_provider_def tag_list_of_empty os_path_join_def
      IMAGE_DIR_def process_image_text_pair_def combined_emb_example Let_def)

lemma add_two_items:
  "fst (add_item ex_provider (fst (add_item ex_provider ex_empty ''a.jpg'' ''A'' ''shirt'' []))
          ''b.jpg'' ''B'' ''hat'' []) = ex_two"
  unfolding add_first_item
  by (simp add: add_item_def ex_provider_def ex_two_def tag_list_of_empty os_path_join_def
      IMAGE_DIR_def process_image_text_pair_def combined_emb_example2 Let_def)

lemma add_second_item_outcome:
  "snd (add_item ex_provider (fst (add_item ex_provider ex_empty ''a.jpg'' ''A'' ''shirt'' []))
          ''b.jpg'' ''B'' ''hat'' []) = Inr (Message ''Item added successfully'')"
  unfolding add_first_item
  by (simp add: add_item_def ex_provider_def tag_list_of_empty os_path_join_def
      IMAGE_DIR_def process_image_text_pair_def Let_def)

lemma delete_first_of_two:
  "snd (delete_item ex_provider ex_two ''a.jpg'') = Inr (Message ''Item deleted successfully'')"
  "metadata (fst (delete_item ex_provider ex_two ''a.jpg'')) =
     [\<lparr>filename = ''b.jpg'', comment = ''hat'', tags = []\<rparr>]"
  "index (fst (delete_item ex_provider ex_two ''a.jpg'')) = [[9/10, 3/10]]"
  by (simp_all add: delete_item_def delete_item_try_def ex_two_def ex_provider_def os_path_join_def
      IMAGE_DIR_def process_image_text_pair_def combined_emb_example2 Let_def)

lemma query_emb_example: "query_emb ex_provider ''B'' ''hat'' = Inr [9/10, 3/10]"
  using combined_emb_example2 by (simp add: query_emb_def ex_provider_def combined_emb_def)

lemma delete_only_item:
  "snd (delete_item ex_provider (fst (add_item ex_provider ex_empty ''a.jpg'' ''A'' ''shirt'' []))
          ''a.jpg'') = Inr (Message ''Item deleted successfully'')"
  "metadata (fst (delete_item ex_provider
          (fst (add_item ex_provider ex_empty ''a.jpg'' ''A'' ''shirt'' [])) ''a.jpg'')) = []"
  "index (fst (delete_item ex_provider
          (fst (add_item ex_provider ex_empty ''a.jpg'' ''A'' ''shirt'' [])) ''a.jpg'')) = []"
  "index_file (fst (delete_item ex_provider
          (fst (add_item ex_provider ex_empty ''a.jpg'' ''A'' ''shirt'' [])) ''a.jpg''))
     = Content [[3/10, 9/10]]"
  "metadata_file (fst (delete_item ex_provider
          (fst (add_item ex_provider ex_empty ''a.jpg'' ''A'' ''shirt'' [])) ''a.jpg''))
     = Content []"
  unfolding add_first_item
  by (simp_all add: delete_item_def delete_item_try_def os_path_join_def IMAGE_DIR_def Let_def)

lemma rebuild_after_restart:
  "metadata (fst (rebuild_index ex_provider ex_restarted)) = []"
  "index (fst (rebuild_index ex_provider ex_restarted)) = []"
  "index_file (fst (rebuild_index ex_provider ex_restarted)) = Content [[3/10, 9/10]]"
  "metadata_file (fst (rebuild_index ex_provider ex_restarted)) = Content []"
  by (simp_all add: rebuild_index_def ex_restarted_def Let_def)

lemma query_emb_example_A: "query_emb ex_provider ''A'' ''shirt'' = Inr [3/10, 9/10]"
  using combined_emb_example by (simp add: query_emb_def ex_provider_def combined_emb_def)

lemma search_two_items:
  "search_image ex_provider ex_two ''B'' ''hat'' 2 PosInf =
     Inr [\<lparr>filename = ''b.jpg'', comment = ''hat'', tags = []\<rparr>,
          \<lparr>filename = ''a.jpg'', comment = ''shirt'', tags = []\<rparr>]"
  by (simp add: search_image_def query_emb_example ex_two_def index_search_def scored_def
      l2sqr_def py_getitem_def)

lemma search_padded:
  "search_image ex_provider (fst (add_item ex_provider ex_empty ''a.jpg'' ''A'' ''shirt'' []))
     ''A'' ''shirt'' 2 PosInf =
     Inr [\<lparr>filename = ''a.jpg'', comment = ''shirt'', tags = []\<rparr>,
          \<lparr>filename = ''a.jpg'', comment = ''shirt'', tags = []\<rparr>]"
  unfolding add_first_item
  by (simp add: search_image_def query_emb_example_A index_search_def scored_def
      l2sqr_def py_getitem_def)

lemma search_drifted:
  "search_image ex_provider (fst (add_item ex_provider ex_restarted ''b.jpg'' ''B'' ''hat'' []))
     ''B'' ''hat'' 1 PosInf = Inr []"
  unfolding add_after_restart
  by (simp add: search_image_def query_emb_example index_search_def scored_def
      l2sqr_def py_getitem_def)

lemma py_int_numeral: "py_int (numeral n) = numeral n" "py_int 0 = 0"
  by (simp_all add: py_int_def)

lemma analyze_example:
  "analyze_outfit ex_detector ex_uuid ''I'' =
     Inr [\<lparr>category = ''shirt'', confidence = 9/10, segment_path = ''segments/u2.jpg''\<rparr>,
          \<lparr>category = ''hat'', confidence = 76/100, segment_path = ''segments/u3.jpg''\<rparr>]"
  by (simp add: analyze_outfit_def ex_detector_def ex_dets_def ex_uuid_def excluded_categories_def
      slice_len_def py_int_numeral Let_def)

section \<open>Auxiliary facts\<close>

lemma update_existing_keys:
  "k \<in> fst ` set d \<Longrightarrow> map fst (AList.update k v d) = map fst d"
  by (simp add: update_keys)

lemma py_getitem_mem: "py_getitem xs i = Inr x \<Longrightarrow> x \<in> set xs"
  by (auto simp: py_getitem_def split: if_splits)

text \<open>Whatever Search returns is taken from the metadata sequence.\<close>

lemma results_of_subset: "results_of md mx hits = Inr res \<Longrightarrow> set res \<subseteq> set md"
proof (induction hits arbitrary: res)
  case Nil
  then show ?case by simp
next
  case (Cons h hits)
  obtain d idx where h: "h = (d, idx)" by (cases h)
  show ?case
  proof (cases "float_le d mx \<and> idx < int (length md)")
    case True
    with Cons.prems h obtain it r where
      "py_getitem md idx = Inr it" "results_of md mx hits = Inr r" "res = it # r"
      by (auto split: sum.splits)
    with Cons.IH[of r] show ?thesis
      by (auto dest: py_getitem_mem)
  next
    case False
    with Cons h show ?thesis by auto
  qed
qed

lemma delete_item_metadata:
  "delete_item P s fname = (s', Inr (Message m)) \<Longrightarrow>
     metadata s' = filter (\<lambda>it. filename it \<noteq> fname) (metadata s)"
  by (auto simp: delete_item_def delete_item_try_def Let_def
      split: disk_file.splits sum.splits if_splits prod.splits)

lemma vec_div_norm: "vec_div v (linalg_norm v) = l2_normalize v"
  by (simp add: vec_div_def linalg_norm_def l2_normalize_def power2_eq_square)

lemma vec_average: "vec_div (vec_add a b) 2 = map (\<lambda>(x, y). (x + y) / 2) (zip a b)"
  by (simp add: vec_div_def vec_add_def split_def)

lemma combined_emb_fused: "combined_emb a b = fused_embedding a b"
  by (simp add: combined_emb_def fused_embedding_def vec_div_norm vec_average)

lemma combined_text_nonempty: "combined_text c ts \<noteq> []"
  by (simp add: combined_text_def)

lemma query_emb_pair:
  "cmt \<noteq> [] \<Longrightarrow> files path = Some img \<Longrightarrow>
     query_emb P img cmt = process_image_text_pair P files path cmt"
  by (simp add: query_emb_def process_image_text_pair_def combined_emb_def split: sum.splits)

lemma fused_example:
  "fused_embedding [4, 3] [1, 0] = [9/10, 3/10]" "l2_normalize [4, 3] = [4/5, 3/5]"
  by (simp_all add: fused_embedding_def l2_normalize_def)

text \<open>The rebuild loop appends to both lists in the same iterations.\<close>

lemma rebuild_loop_lengths:
  "rebuild_loop P files d = Inr (es, ms) \<Longrightarrow> length es = length ms"
  by (induction P files d arbitrary: es ms rule: rebuild_loop.induct)
     (auto simp: Let_def split: if_splits sum.splits prod.splits)

text \<open>
  Search when the index holds exactly \<open>k\<close> vectors: the hits are all positions, ordered by
  distance, and nothing is padded.
\<close>

lemma results_of_in_range:
  "\<forall>h \<in> set hits. 0 \<le> snd h \<and> snd h < int (length md) \<Longrightarrow>
     results_of md PosInf hits = Inr (map (\<lambda>h. md ! nat (snd h)) hits)"
proof (induction hits)
  case Nil
  then show ?case by simp
next
  case (Cons h hits)
  obtain d idx where h: "h = (d, idx)" by (cases h)
  with Cons show ?case
    by (simp add: py_getitem_def)
qed

lemma scored_nth: "scored ix q = map (\<lambda>i. (l2sqr q (ix ! i), int i)) [0..<length ix]"
  by (rule nth_equalityI) (simp_all add: scored_def nth_enumerate_eq)

lemma length_scored: "length (scored ix q) = length ix"
  by (simp add: scored_def)

lemma index_search_full:
  "index_search ix q (length ix) = sort_key fst (scored ix q)"
  by (simp add: index_search_def length_scored)

lemma hits_positions:
  "mset (map (\<lambda>h. nat (snd h)) (sort_key fst (scored ix q))) = mset [0..<length ix]"
proof -
  have "mset (map (\<lambda>h. nat (snd h)) (sort_key fst (scored ix q)))
          = image_mset (\<lambda>h. nat (snd h)) (mset (scored ix q))"
    by simp
  also have "\<dots> = mset (map (\<lambda>h. nat (snd h)) (scored ix q))"
    by simp
  also have "map (\<lambda>h. nat (snd h)) (scored ix q) = [0..<length ix]"
    by (simp add: scored_nth comp_def)
  finally show ?thesis .
qed

lemma hits_member:
  "h \<in> set (scored ix q) \<Longrightarrow>
     0 \<le> snd h \<and> snd h < int (length ix) \<and> fst h = l2sqr q (ix ! nat (snd h))"
  by (auto simp: scored_nth)

lemma hits_sorted:
  "sorted (map (\<lambda>h. l2sqr q (ix ! nat (snd h))) (sort_key fst (scored ix q)))"
proof -
  have eq: "map (\<lambda>h. l2sqr q (ix ! nat (snd h))) (sort_key fst (scored ix q))
          = map fst (sort_key fst (scored ix q))"
    by (rule map_cong) (auto dest: hits_member)
  show ?thesis
    unfolding eq by (rule sorted_sort_key)
qed

text \<open>
  Search on an empty catalogue: every one of the \<open>k\<close> slots is padding, and whether the
  padding passes the distance filter decides between \<open>[]\<close> and an \<open>IndexError\<close>.
\<close>

lemma search_empty_catalog:
  assumes "index s = []" and "metadata s = []" and "1 \<le> k" and "k \<le> 50"
    and "query_emb P img cmt = Inr q"
  shows "search_image P s img cmt k mx = (if float_le FLT_MAX mx then Inl IndexError else Inr [])"
proof -
  have r: "results_of [] mx (replicate n (FLT_MAX, - 1)) =
        (if 0 < n \<and> float_le FLT_MAX mx then Inl IndexError else Inr [])" for n
    by (induction n) (auto simp: py_getitem_def)
  from assms(3) have "0 < nat k" by simp
  with assms r [of "nat k"] show ?thesis
    by (simp add: search_image_def index_search_def scored_def)
qed

section \<open>The tracker loop of AnalyzeOutfit\<close>

text \<open>
  One iteration either leaves the tracker alone (the detection is filtered out, or its
  category is already tracked with at least its confidence) or overwrites the entry of its
  category. The facts below follow the loop through the whole list of detections.
\<close>

lemma track_Cons:
  assumes "track uuid shape (det # dets) n T = Inr T'"
  shows "\<exists>n' T1. track uuid shape dets n' T1 = Inr T' \<and>
           ((T1 = T \<and> (\<not> (0.75 \<le> confidence det \<and> category det \<notin> excluded_categories) \<or>
                        (\<exists>t. map_of T (category det) = Some t \<and> confidence det \<le> confidence t))) \<or>
            ((0.75 \<le> confidence det \<and> category det \<notin> excluded_categories) \<and>
             (\<forall>t. map_of T (category det) = Some t \<longrightarrow> confidence t < confidence det) \<and>
             (\<exists>p. T1 = AList.update (category det)
                     \<lparr>category = category det, confidence = confidence det, segment_path = p\<rparr> T)))"
proof (cases "0.75 \<le> confidence det \<and> category det \<notin> excluded_categories")
  case False
  with assms have "track uuid shape dets n T = Inr T'"
    by auto
  with False show ?thesis by blast
next
  case q: True
  show ?thesis
  proof (cases "case map_of T (category det) of None \<Rightarrow> True | Some t \<Rightarrow> confidence t < confidence det")
    case False
    with assms q have "track uuid shape dets n T = Inr T'"
      by (simp add: Let_def)
    moreover from False have "\<exists>t. map_of T (category det) = Some t \<and> confidence det \<le> confidence t"
      by (auto split: option.splits)
    ultimately show ?thesis by blast
  next
    case True
    with assms q have "track uuid shape dets (Suc n)
        (AList.update (category det)
           \<lparr>category = category det, confidence = confidence det,
            segment_path = ''segments/'' @ uuid n @ ''.jpg''\<rparr> T) = Inr T'"
      by (simp add: Let_def split: prod.splits if_splits)
    moreover from True have "\<forall>t. map_of T (category det) = Some t \<longrightarrow> confidence t < confidence det"
      by (auto split: option.splits)
    ultimately show ?thesis using q by blast
  qed
qed

lemma track_distinct:
  "track uuid shape dets n T = Inr T' \<Longrightarrow> distinct (map fst T) \<Longrightarrow> distinct (map fst T')"
proof (induction dets arbitrary: n T)
  case Nil
  then show ?case by simp
next
  case (Cons det dets)
  from track_Cons [OF Cons.prems(1)] obtain n' T1 where
    t: "track uuid shape dets n' T1 = Inr T'" and
    c: "T1 = T \<or> (\<exists>p. T1 = AList.update (category det)
                     \<lparr>category = category det, confidence = confidence det, segment_path = p\<rparr> T)"
    by blast
  from c Cons.prems(2) have "distinct (map fst T1)"
    by (auto simp: distinct_update)
  with Cons.IH [OF t] show ?case .
qed

lemma track_wellformed:
  assumes "track uuid shape dets n T = Inr T'"
    and "\<forall>k t. map_of T k = Some t \<longrightarrow>
           category t = k \<and> 0.75 \<le> confidence t \<and> k \<notin> excluded_categories"
  shows "\<forall>k t. map_of T' k = Some t \<longrightarrow>
           category t = k \<and> 0.75 \<le> confidence t \<and> k \<notin> excluded_categories"
  using assms
proof (induction dets arbitrary: n T)
  case Nil
  then show ?case by simp
next
  case (Cons det dets)
  from track_Cons [OF Cons.prems(1)] obtain n' T1 where
    t: "track uuid shape dets n' T1 = Inr T'" and
    c: "T1 = T \<or> ((0.75 \<le> confidence det \<and> category det \<notin> excluded_categories) \<and>
          (\<exists>p. T1 = AList.update (category det)
                     \<lparr>category = category det, confidence = confidence det, segment_path = p\<rparr> T))"
    by blast
  from c Cons.prems(2) have "\<forall>k t. map_of T1 k = Some t \<longrightarrow>
           category t = k \<and> 0.75 \<le> confidence t \<and> k \<notin> excluded_categories"
    by (auto simp: update_conv' split: if_splits)
  with Cons.IH [OF t] show ?case .
qed

lemma track_keeps_keys:
  "track uuid shape dets n T = Inr T' \<Longrightarrow> map_of T k \<noteq> None \<Longrightarrow> map_of T' k \<noteq> None"
proof (induction dets arbitrary: n T)
  case Nil
  then show ?case by simp
next
  case (Cons det dets)
  from track_Cons [OF Cons.prems(1)] obtain n' T1 where
    t: "track uuid shape dets n' T1 = Inr T'" and
    c: "T1 = T \<or> (\<exists>p. T1 = AList.update (category det)
                     \<lparr>category = category det, confidence = confidence det, segment_path = p\<rparr> T)"
    by blast
  from c Cons.prems(2) have "map_of T1 k \<noteq> None"
    by (auto simp: update_conv')
  with Cons.IH [OF t] show ?case .
qed

lemma track_origin:
  assumes "track uuid shape dets n T = Inr T'" and "map_of T' k = Some t"
  shows "map_of T k = Some t \<or>
         (\<exists>d \<in> set dets. category d = k \<and> confidence d = confidence t \<and>
            0.75 \<le> confidence d \<and> category d \<notin> excluded_categories)"
  using assms
proof (induction dets arbitrary: n T)
  case Nil
  then show ?case by simp
next
  case (Cons det dets)
  from track_Cons [OF Cons.prems(1)] obtain n' T1 where
    t: "track uuid shape dets n' T1 = Inr T'" and
    c: "T1 = T \<or> ((0.75 \<le> confidence det \<and> category det \<notin> excluded_categories) \<and>
          (\<exists>p. T1 = AList.update (category det)
                     \<lparr>category = category det, confidence = confidence det, segment_path = p\<rparr> T))"
    by blast
  from Cons.IH [OF t Cons.prems(2)] consider
      (old) "map_of T1 k = Some t"
    | (new) "\<exists>d \<in> set dets. category d = k \<and> confidence d = confidence t \<and>
            0.75 \<le> confidence d \<and> category d \<notin> excluded_categories"
    by blast
  then show ?case
  proof cases
    case old
    with c show ?thesis
      by (auto simp: update_conv' split: if_splits)
  next
    case new
    then show ?thesis by auto
  qed
qed

lemma track_maximal:
  assumes "track uuid shape dets n T = Inr T'" and "map_of T' k = Some t"
  shows "(\<forall>t0. map_of T k = Some t0 \<longrightarrow> confidence t0 \<le> confidence t) \<and>
         (\<forall>d \<in> set dets. category d = k \<and> 0.75 \<le> confidence d \<and>
             category d \<notin> excluded_categories \<longrightarrow> confidence d \<le> confidence t)"
  using assms
proof (induction dets arbitrary: n T)
  case Nil
  then show ?case by simp
next
  case (Cons det dets)
  from track_Cons [OF Cons.prems(1)] obtain n' T1 where
    t: "track uuid shape dets n' T1 = Inr T'" and
    c: "(T1 = T \<and> (\<not> (0.75 \<le> confidence det \<and> category det \<notin> excluded_categories) \<or>
                        (\<exists>t. map_of T (category det) = Some t \<and> confidence det \<le> confidence t))) \<or>
            ((0.75 \<le> confidence det \<and> category det \<notin> excluded_categories) \<and>
             (\<forall>t. map_of T (category det) = Some t \<longrightarrow> confidence t < confidence det) \<and>
             (\<exists>p. T1 = AList.update (category det)
                     \<lparr>category = category det, confidence = confidence det, segment_path = p\<rparr> T))"
    by blast
  note ih = Cons.IH [OF t Cons.prems(2)]
  from ih have ih1: "\<forall>t1. map_of T1 k = Some t1 \<longrightarrow> confidence t1 \<le> confidence t"
    by (rule conjunct1)
  from ih have ih2: "\<forall>d \<in> set dets. category d = k \<and> 0.75 \<le> confidence d \<and>
             category d \<notin> excluded_categories \<longrightarrow> confidence d \<le> confidence t"
    by (rule conjunct2)
  from c consider
      (skip) "T1 = T"
        "\<not> (0.75 \<le> confidence det \<and> category det \<notin> excluded_categories) \<or>
          (\<exists>t. map_of T (category det) = Some t \<and> confidence det \<le> confidence t)"
    | (upd) p where "0.75 \<le> confidence det" "category det \<notin> excluded_categories"
        "\<forall>t. map_of T (category det) = Some t \<longrightarrow> confidence t < confidence det"
        "T1 = AList.update (category det)
                     \<lparr>category = category det, confidence = confidence det, segment_path = p\<rparr> T"
    by blast
  then show ?case
  proof cases
    case skip
    note s = skip(2)
    from skip(1) ih1 have a: "\<forall>t0. map_of T k = Some t0 \<longrightarrow> confidence t0 \<le> confidence t"
      by simp
    have "category det = k \<and> 0.75 \<le> confidence det \<and> category det \<notin> excluded_categories
            \<longrightarrow> confidence det \<le> confidence t"
      using s a by force
    with a ih2 show ?thesis by simp
  next
    case upd
    note b = upd(3) and u = upd(4)
    have a: "\<forall>t0. map_of T k = Some t0 \<longrightarrow> confidence t0 \<le> confidence t"
    proof (intro allI impI)
      fix t0 assume m: "map_of T k = Some t0"
      show "confidence t0 \<le> confidence t"
      proof (cases "k = category det")
        case True
        with u ih1 have "confidence det \<le> confidence t"
          by (simp add: update_conv')
        moreover from True m b have "confidence t0 < confidence det" by simp
        ultimately show ?thesis by simp
      next
        case False
        with u m ih1 show ?thesis by (simp add: update_conv')
      qed
    qed
    have "category det = k \<longrightarrow> confidence det \<le> confidence t"
      using u ih1 by (auto simp: update_conv')
    with a ih2 show ?thesis by simp
  qed
qed

lemma track_complete:
  assumes "track uuid shape dets n T = Inr T'" and "d \<in> set dets"
    and "0.75 \<le> confidence d" and "category d \<notin> excluded_categories"
  shows "map_of T' (category d) \<noteq> None"
  using assms(1,2)
proof (induction dets arbitrary: n T)
  case Nil
  then show ?case by simp
next
  case (Cons det dets)
  from track_Cons [OF Cons.prems(1)] obtain n' T1 where
    t: "track uuid shape dets n' T1 = Inr T'" and
    c: "(T1 = T \<and> (\<not> (0.75 \<le> confidence det \<and> category det \<notin> excluded_categories) \<or>
                        (\<exists>t. map_of T (category det) = Some t \<and> confidence det \<le> confidence t))) \<or>
            (\<exists>p. T1 = AList.update (category det)
                     \<lparr>category = category det, confidence = confidence det, segment_path = p\<rparr> T)"
    by blast
  show ?case
  proof (cases "d = det")
    case True
    with c assms(3,4) have "map_of T1 (category d) \<noteq> None"
      by (auto simp: update_conv')
    with t show ?thesis by (rule track_keeps_keys)
  next
    case False
    with Cons.prems(2) have "d \<in> set dets" by simp
    with Cons.IH [OF t] show ?thesis .
  qed
qed

text \<open>The loop returns when no crop it has to write is empty.\<close>

lemma track_returns:
  assumes "\<forall>d \<in> set dets. case bbox d of (bx1, by1, bx2, by2) \<Rightarrow>
             slice_len (fst shape) (py_int by1) (py_int by2) \<noteq> 0 \<and>
             slice_len (snd shape) (py_int bx1) (py_int bx2) \<noteq> 0"
  shows "\<exists>T'. track uuid shape dets n T = Inr T'"
  using assms
  by (induction dets arbitrary: n T) (auto simp: Let_def split: prod.splits)

section \<open>AddItem and the length invariant\<close>

text \<open>
  C1, as stated: after every successful AddItem the index and the metadata sequence have
  the same length. It fails on an installation whose two stores already differ in length,
  and such an installation arises from the handlers themselves: add one item, delete it
  (the index file keeps its vector, the metadata file is emptied), restart, add an item.
\<close>

theorem add_item_lengths_counterexample:
  "startup (fst (delete_item ex_provider
                   (fst (add_item ex_provider ex_empty ''a.jpg'' ''A'' ''shirt'' [])) ''a.jpg''))
     = Inr ex_restarted \<and>
   snd (add_item ex_provider ex_restarted ''b.jpg'' ''B'' ''hat'' [])
     = Inr (Message ''Item added successfully'') \<and>
   length (index (fst (add_item ex_provider ex_restarted ''b.jpg'' ''B'' ''hat'' []))) = 2 \<and>
   length (metadata (fst (add_item ex_provider ex_restarted ''b.jpg'' ''B'' ''hat'' []))) = 1 \<and>
   length (index (fst (add_item ex_provider ex_restarted ''b.jpg'' ''B'' ''hat'' [])))
     \<noteq> length (metadata (fst (add_item ex_provider ex_restarted ''b.jpg'' ''B'' ''hat'' [])))"
  by (simp add: add_delete_restart add_after_restart)

text \<open>
  C1, amended: a successful AddItem appends exactly one vector, the embedding of the
  uploaded image and the combined text, to the end of the index, and exactly one item to
  the end of the metadata sequence, leaving what both held before in place; so the two
  lengths are equal afterwards whenever they were equal before the call.
\<close>

theorem add_item_lockstep:
  assumes "add_item P s fname img cmt tgs = (s', Inr r)"
  shows "(\<exists>emb. process_image_text_pair P ((image_dir s)(os_path_join IMAGE_DIR fname \<mapsto> img))
                  (os_path_join IMAGE_DIR fname) (combined_text cmt (tag_list_of tgs)) = Inr emb \<and>
                index s' = index s @ [emb]) \<and>
         metadata s' = metadata s @ [\<lparr>filename = fname, comment = cmt, tags = tag_list_of tgs\<rparr>] \<and>
         length (index s') = length (index s) + 1 \<and>
         length (metadata s') = length (metadata s) + 1 \<and>
         (length (index s) = length (metadata s) \<longrightarrow>
            length (index s') = length (metadata s'))"
  using assms
  by (auto simp: add_item_def Let_def split: disk_file.splits sum.splits)

theorem add_item_lockstep_witness:
  "snd (add_item ex_provider (fst (add_item ex_provider ex_empty ''a.jpg'' ''A'' ''shirt'' []))
          ''b.jpg'' ''B'' ''hat'' []) = Inr (Message ''Item added successfully'') \<and>
   index (fst (add_item ex_provider ex_empty ''a.jpg'' ''A'' ''shirt'' [])) = [[3/10, 9/10]] \<and>
   index (fst (add_item ex_provider (fst (add_item ex_provider ex_empty ''a.jpg'' ''A'' ''shirt'' []))
          ''b.jpg'' ''B'' ''hat'' [])) = [[3/10, 9/10]] @ [[9/10, 3/10]] \<and>
   metadata (fst (add_item ex_provider (fst (add_item ex_provider ex_empty ''a.jpg'' ''A'' ''shirt'' []))
          ''b.jpg'' ''B'' ''hat'' []))
     = [\<lparr>filename = ''a.jpg'', comment = ''shirt'', tags = []\<rparr>] @
       [\<lparr>filename = ''b.jpg'', comment = ''hat'', tags = []\<rparr>] \<and>
   length (index (fst (add_item ex_provider
          (fst (add_item ex_provider ex_empty ''a.jpg'' ''A'' ''shirt'' []))
          ''b.jpg'' ''B'' ''hat'' []))) = 2 \<and>
   length (metadata (fst (add_item ex_provider
          (fst (add_item ex_provider ex_empty ''a.jpg'' ''A'' ''shirt'' []))
          ''b.jpg'' ''B'' ''hat'' []))) = 2"
proof -
  have h: "add_item ex_provider (fst (add_item ex_provider ex_empty ''a.jpg'' ''A'' ''shirt'' []))
             ''b.jpg'' ''B'' ''hat'' [] =
             (fst (add_item ex_provider (fst (add_item ex_provider ex_empty ''a.jpg'' ''A'' ''shirt'' []))
                ''b.jpg'' ''B'' ''hat'' []),
              Inr (Message ''Item added successfully''))"
    by (simp add: prod_eq_iff add_second_item_outcome)
  have e: "index (fst (add_item ex_provider ex_empty ''a.jpg'' ''A'' ''shirt'' [])) = [[3/10, 9/10]]"
          "metadata (fst (add_item ex_provider ex_empty ''a.jpg'' ''A'' ''shirt'' []))
             = [\<lparr>filename = ''a.jpg'', comment = ''shirt'', tags = []\<rparr>]"
    by (simp_all add: add_first_item)
  from add_item_lockstep [OF h] e show ?thesis
    by (simp add: add_two_items add_second_item_outcome ex_two_def tag_list_of_empty)
qed

section \<open>AddItem on a filename the catalogue already has\<close>

text \<open>
  C2, as stated: when the filename is already in the Catalog Store, AddItem overwrites the
  catalogue entry and does not append a second metadata entry for that filename. The second
  half fails: adding \<open>a.jpg\<close> twice leaves two metadata entries named \<open>a.jpg\<close>, while the
  catalogue holds one.
\<close>

theorem add_item_duplicate_counterexample:
  "comments_file (fst (add_item ex_provider ex_empty ''a.jpg'' ''A'' ''shirt'' []))
     = Content [(''a.jpg'', Entry (Some ''shirt'') (Some []))] \<and>
   snd (add_item ex_provider (fst (add_item ex_provider ex_empty ''a.jpg'' ''A'' ''shirt'' []))
          ''a.jpg'' ''A'' ''blue shirt'' []) = Inr (Message ''Item added successfully'') \<and>
   map filename (metadata (fst (add_item ex_provider
          (fst (add_item ex_provider ex_empty ''a.jpg'' ''A'' ''shirt'' []))
          ''a.jpg'' ''A'' ''blue shirt'' []))) = [''a.jpg'', ''a.jpg''] \<and>
   comments_file (fst (add_item ex_provider
          (fst (add_item ex_provider ex_empty ''a.jpg'' ''A'' ''shirt'' []))
          ''a.jpg'' ''A'' ''blue shirt'' []))
     = Content [(''a.jpg'', Entry (Some ''blue shirt'') (Some []))]"
  by (simp add: add_second_same) (simp add: add_first_item)

text \<open>
  C2, amended: when the filename is already in the Catalog Store and AddItem returns, the
  catalogue entry has been overwritten in place (same keys in the same order, the other
  entries untouched) and one more metadata entry for that filename has been appended; the
  metadata sequence then holds more than one entry for the filename whenever it held one
  before.
\<close>

theorem add_item_existing_filename:
  assumes "comments_file s = Content d" and "fname \<in> fst ` set d"
    and "add_item P s fname img cmt tgs = (s', Inr r)"
  shows "(\<exists>d'. comments_file s' = Content d' \<and> map fst d' = map fst d \<and>
           map_of d' fname = Some (Entry (Some cmt) (Some (tag_list_of tgs))) \<and>
           (\<forall>k. k \<noteq> fname \<longrightarrow> map_of d' k = map_of d k)) \<and>
         metadata s' = metadata s @ [\<lparr>filename = fname, comment = cmt, tags = tag_list_of tgs\<rparr>] \<and>
         (fname \<in> filename ` set (metadata s) \<longrightarrow> \<not> distinct (map filename (metadata s')))"
  using assms(1,3) update_existing_keys[OF assms(2)]
  by (auto simp: add_item_def Let_def update_conv' split: sum.splits)

theorem add_item_existing_filename_witness:
  "comments_file ex_two = Content [(''a.jpg'', Entry (Some ''shirt'') (Some [])),
                                   (''b.jpg'', Entry (Some ''hat'') (Some []))] \<and>
   ''a.jpg'' \<in> fst ` set [(''a.jpg'', Entry (Some ''shirt'') (Some [])),
                           (''b.jpg'', Entry (Some ''hat'') (Some []))] \<and>
   snd (add_item ex_provider ex_two ''a.jpg'' ''A'' ''blue shirt'' [])
     = Inr (Message ''Item added successfully'') \<and>
   ''a.jpg'' \<in> filename ` set (metadata ex_two) \<and>
   map filename (metadata (fst (add_item ex_provider ex_two ''a.jpg'' ''A'' ''blue shirt'' [])))
     = [''a.jpg'', ''b.jpg'', ''a.jpg''] \<and>
   \<not> distinct (map filename
         (metadata (fst (add_item ex_provider ex_two ''a.jpg'' ''A'' ''blue shirt'' []))))"
proof -
  have c: "comments_file ex_two = Content [(''a.jpg'', Entry (Some ''shirt'') (Some [])),
                                           (''b.jpg'', Entry (Some ''hat'') (Some []))]"
    by (simp add: ex_two_def)
  have k: "''a.jpg'' \<in> fst ` set [(''a.jpg'', Entry (Some ''shirt'') (Some [])),
                                   (''b.jpg'', Entry (Some ''hat'') (Some []))]"
    by simp
  have r: "snd (add_item ex_provider ex_two ''a.jpg'' ''A'' ''blue shirt'' [])
             = Inr (Message ''Item added successfully'')"
    by (simp add: add_item_def ex_provider_def ex_two_def tag_list_of_empty os_path_join_def
        IMAGE_DIR_def process_image_text_pair_def Let_def)
  have m: "map filename (metadata ex_two) = [''a.jpg'', ''b.jpg'']"
          "''a.jpg'' \<in> filename ` set (metadata ex_two)"
    by (simp_all add: ex_two_def)
  have h: "add_item ex_provider ex_two ''a.jpg'' ''A'' ''blue shirt'' [] =
             (fst (add_item ex_provider ex_two ''a.jpg'' ''A'' ''blue shirt'' []),
              Inr (Message ''Item added successfully''))"
    by (simp add: prod_eq_iff r)
  from add_item_existing_filename [OF c k h] r m c k show ?thesis
    by simp
qed

section \<open>Search over the whole catalogue\<close>

text \<open>
  C3, as stated: with \<open>max_distance = +infinity\<close> and \<open>k >= len(metadata)\<close> Search returns
  exactly the items of the metadata sequence, each once, nearest first. Two inputs where it
  does not. With one item in both stores and \<open>k = 2\<close>, the slot the index pads with
  position \<open>-1\<close> passes the filter and \<open>metadata[-1]\<close> is returned a second time. With two
  vectors in the index and one metadata entry (after add, delete, restart, add) and
  \<open>k = 1\<close>, the nearest vector is at position 1, which the filter drops, and nothing is
  returned.
\<close>

theorem search_all_counterexample:
  "metadata (fst (add_item ex_provider ex_empty ''a.jpg'' ''A'' ''shirt'' []))
     = [\<lparr>filename = ''a.jpg'', comment = ''shirt'', tags = []\<rparr>] \<and>
   search_image ex_provider (fst (add_item ex_provider ex_empty ''a.jpg'' ''A'' ''shirt'' []))
     ''A'' ''shirt'' 2 PosInf =
     Inr [\<lparr>filename = ''a.jpg'', comment = ''shirt'', tags = []\<rparr>,
          \<lparr>filename = ''a.jpg'', comment = ''shirt'', tags = []\<rparr>] \<and>
   metadata (fst (add_item ex_provider ex_restarted ''b.jpg'' ''B'' ''hat'' []))
     = [\<lparr>filename = ''b.jpg'', comment = ''hat'', tags = []\<rparr>] \<and>
   search_image ex_provider (fst (add_item ex_provider ex_restarted ''b.jpg'' ''B'' ''hat'' []))
     ''B'' ''hat'' 1 PosInf = Inr []"
  by (simp add: search_padded search_drifted) (simp add: add_first_item add_after_restart)

text \<open>
  C3, amended: when the index and the metadata sequence have the same length \<open>n\<close>, the
  query can be embedded, and \<open>k = n\<close> (so \<open>1 \<le> n \<le> 50\<close>), Search with
  \<open>max_distance = +infinity\<close> returns the items at a permutation of the positions
  \<open>0, ..., n - 1\<close>, in ascending order of the distance between the query embedding and the
  vector at that position.
\<close>

theorem search_returns_all_sorted:
  assumes "length (index s) = length (metadata s)"
    and "k = int (length (metadata s))" and "1 \<le> k" and "k \<le> 50"
    and "query_emb P img cmt = Inr q"
  shows "\<exists>ps. search_image P s img cmt k PosInf = Inr (map (\<lambda>i. metadata s ! i) ps) \<and>
              mset ps = mset [0..<length (metadata s)] \<and>
              sorted (map (\<lambda>i. l2sqr q (index s ! i)) ps)"
proof -
  let ?hits = "sort_key fst (scored (index s) q)"
  let ?ps = "map (\<lambda>h. nat (snd h)) ?hits"
  have k: "nat k = length (index s)"
    using assms(1,2) by simp
  have "search_image P s img cmt k PosInf = results_of (metadata s) PosInf ?hits"
    using assms(3,4,5) by (simp add: search_image_def k index_search_full)
  also have "\<dots> = Inr (map (\<lambda>h. metadata s ! nat (snd h)) ?hits)"
    by (rule results_of_in_range) (use assms(1) in \<open>auto dest: hits_member\<close>)
  also have "map (\<lambda>h. metadata s ! nat (snd h)) ?hits = map (\<lambda>i. metadata s ! i) ?ps"
    by (simp add: comp_def)
  finally have 1: "search_image P s img cmt k PosInf = Inr (map (\<lambda>i. metadata s ! i) ?ps)" .
  have 2: "mset ?ps = mset [0..<length (metadata s)]"
    using hits_positions [of "index s" q] assms(1) by simp
  have 3: "sorted (map (\<lambda>i. l2sqr q (index s ! i)) ?ps)"
    using hits_sorted [of q "index s"] by (simp add: comp_def)
  from 1 2 3 show ?thesis by blast
qed

theorem search_returns_all_sorted_witness:
  "length (index ex_two) = length (metadata ex_two) \<and>
   (2::int) = int (length (metadata ex_two)) \<and>
   query_emb ex_provider ''B'' ''hat'' = Inr [9/10, 3/10] \<and>
   search_image ex_provider ex_two ''B'' ''hat'' 2 PosInf =
     Inr [\<lparr>filename = ''b.jpg'', comment = ''hat'', tags = []\<rparr>,
          \<lparr>filename = ''a.jpg'', comment = ''shirt'', tags = []\<rparr>] \<and>
   (\<exists>ps. search_image ex_provider ex_two ''B'' ''hat'' 2 PosInf
            = Inr (map (\<lambda>i. metadata ex_two ! i) ps) \<and>
         mset ps = mset [0..<length (metadata ex_two)] \<and>
         sorted (map (\<lambda>i. l2sqr [9/10, 3/10] (index ex_two ! i)) ps))"
proof -
  have a: "length (index ex_two) = length (metadata ex_two)"
    by (simp add: ex_two_def)
  have b: "(2::int) = int (length (metadata ex_two))"
    by (simp add: ex_two_def)
  have c: "(1::int) \<le> 2" "(2::int) \<le> 50"
    by simp_all
  from search_returns_all_sorted [OF a b c query_emb_example] a b
  show ?thesis
    by (simp add: query_emb_example search_two_items)
qed

section \<open>Search on an empty catalogue\<close>

text \<open>
  C4 says that Search on an empty catalogue returns the empty list for every
  \<open>max_distance\<close>. With \<open>max_distance = +infinity\<close> the padded slot (position \<open>-1\<close>) passes
  both tests of the filter, and \<open>metadata[-1]\<close> on the empty list raises. With the default
  threshold the same call returns the empty list.
\<close>

theorem search_empty_catalog_raises:
  "index ex_empty = [] \<and> metadata ex_empty = [] \<and>
   search_image ex_provider ex_empty ''B'' [] 1 PosInf = Inl IndexError \<and>
   search_image ex_provider ex_empty ''B'' [] 1 (Finite (2/5)) = Inr []"
  by (simp add: search_image_def query_emb_def ex_provider_def ex_empty_def index_search_def
      scored_def py_getitem_def FLT_MAX_def)

section \<open>RebuildIndex is idempotent\<close>

text \<open>
  C5: with the Catalog Store and the image directory as they are, a second RebuildIndex in
  a row ends in the state the first one ended in, index vectors and metadata sequence
  included, and with the same outcome. The embedding provider is a function of the image
  and the text, so the vectors are recomputed to the same values.
\<close>

theorem rebuild_index_idempotent:
  "rebuild_index P (fst (rebuild_index P s)) = rebuild_index P s"
  by (auto simp: rebuild_index_def Let_def split: disk_file.splits sum.splits prod.splits)

section \<open>A deleted item is not found again\<close>

text \<open>
  C6: after DeleteItem has succeeded for a filename, a Search on the resulting state, with
  any query, \<open>k\<close> and \<open>max_distance\<close>, returns no item with that filename. Search does not
  change the state, so this holds for every Search up to the next mutating call.
\<close>

theorem delete_then_search:
  assumes "delete_item P s fname = (s', Inr (Message m))"
    and "search_image P s' img cmt k max_distance = Inr res"
  shows "\<forall>it \<in> set res. filename it \<noteq> fname"
proof -
  from assms(2) obtain q where
    "results_of (metadata s') max_distance (index_search (index s') q (nat k)) = Inr res"
    by (auto simp: search_image_def split: if_splits sum.splits)
  then have "set res \<subseteq> set (metadata s')"
    by (rule results_of_subset)
  with delete_item_metadata [OF assms(1)] show ?thesis
    by auto
qed

theorem delete_then_search_witness:
  "snd (delete_item ex_provider ex_two ''a.jpg'') = Inr (Message ''Item deleted successfully'') \<and>
   search_image ex_provider (fst (delete_item ex_provider ex_two ''a.jpg'')) ''B'' ''hat'' 1
       (Finite (2/5)) = Inr [\<lparr>filename = ''b.jpg'', comment = ''hat'', tags = []\<rparr>] \<and>
   filename \<lparr>filename = ''b.jpg'', comment = ''hat'', tags = []\<rparr> \<noteq> ''a.jpg''"
proof -
  have d: "delete_item ex_provider ex_two ''a.jpg'' =
             (fst (delete_item ex_provider ex_two ''a.jpg''),
              Inr (Message ''Item deleted successfully''))"
    by (simp add: prod_eq_iff delete_first_of_two)
  have q: "search_image ex_provider (fst (delete_item ex_provider ex_two ''a.jpg'')) ''B'' ''hat'' 1
             (Finite (2/5)) = Inr [\<lparr>filename = ''b.jpg'', comment = ''hat'', tags = []\<rparr>]"
    by (simp add: search_image_def query_emb_example delete_first_of_two index_search_def
        scored_def l2sqr_def py_getitem_def)
  from delete_then_search [OF d q] d q show ?thesis
    by (simp add: delete_first_of_two)
qed

section \<open>DeleteItem reports its errors\<close>

text \<open>
  C7: DeleteItem never lets an exception leave the handler. Whatever is raised inside the
  try block comes back as the payload \<open>{"error": str(e)}\<close>; in particular a missing
  catalogue file and a catalogue file that does not parse are reported that way.
\<close>

theorem delete_item_never_raises:
  "(\<exists>r. snd (delete_item P s fname) = Inr r) \<and>
   fst (delete_item P s fname) = fst (delete_item_try P s fname) \<and>
   (\<forall>e. snd (delete_item_try P s fname) = Inl e \<longrightarrow>
        snd (delete_item P s fname) = Inr (ErrorPayload (exn_str e))) \<and>
   (comments_file s = Absent \<longrightarrow>
        snd (delete_item P s fname) =
          Inr (ErrorPayload (exn_str (FileNotFoundError COMMENTS_FILE)))) \<and>
   (\<forall>m. comments_file s = Malformed m \<longrightarrow>
        snd (delete_item P s fname) = Inr (ErrorPayload m))"
  by (cases "delete_item_try P s fname"; cases "snd (delete_item_try P s fname)")
     (auto simp: delete_item_def delete_item_try_def Let_def
           split: disk_file.splits sum.splits if_splits)

theorem delete_item_never_raises_witness:
  "comments_file ex_empty = Absent \<and>
   snd (delete_item_try ex_provider ex_empty ''a.jpg'') = Inl (FileNotFoundError COMMENTS_FILE) \<and>
   snd (delete_item ex_provider ex_empty ''a.jpg'') =
     Inr (ErrorPayload (exn_str (FileNotFoundError ''image_comments.json'')))"
proof -
  have a: "comments_file ex_empty = Absent"
    by (simp add: ex_empty_def)
  have t: "snd (delete_item_try ex_provider ex_empty ''a.jpg'') = Inl (FileNotFoundError COMMENTS_FILE)"
    by (simp add: delete_item_try_def ex_empty_def Let_def)
  from delete_item_never_raises [of ex_provider ex_empty "''a.jpg''"] a t show ?thesis
    by (simp add: COMMENTS_FILE_def)
qed

section \<open>What AnalyzeOutfit returns\<close>

text \<open>
  C8: the list AnalyzeOutfit returns has at most one component per category; every
  component in it has confidence at least 0.75 and a category outside the exclusion set;
  its confidence is that of a detection of its category and no detection of that category
  has a higher one. Every category with a detection that passes the filter is represented.
\<close>

theorem analyze_outfit_result:
  assumes "segment_clothing D img = Inr (dets, shape)"
    and "analyze_outfit D uuid img = Inr out"
  shows "distinct (map category out) \<and>
         (\<forall>c \<in> set out.
            0.75 \<le> confidence c \<and> category c \<notin> excluded_categories \<and>
            (\<exists>d \<in> set dets. category d = category c \<and> confidence d = confidence c) \<and>
            (\<forall>d \<in> set dets. category d = category c \<longrightarrow> confidence d \<le> confidence c)) \<and>
         (\<forall>d \<in> set dets. 0.75 \<le> confidence d \<and> category d \<notin> excluded_categories \<longrightarrow>
            category d \<in> category ` set out)"
proof -
  from assms obtain T where t: "track uuid shape dets 1 [] = Inr T" and out: "out = map snd T"
    by (auto simp: analyze_outfit_def split: sum.splits)
  have dist: "distinct (map fst T)"
    using track_distinct [OF t] by simp
  have wf: "\<forall>k s. map_of T k = Some s \<longrightarrow>
              category s = k \<and> 0.75 \<le> confidence s \<and> k \<notin> excluded_categories"
    using track_wellformed [OF t] by simp
  have entry: "map_of T k = Some s" if "(k, s) \<in> set T" for k s
    using that dist by simp
  have keys: "map category out = map fst T"
    unfolding out using wf entry by (auto simp: comp_def)
  have 1: "distinct (map category out)"
    using keys dist by simp
  have 2: "0.75 \<le> confidence c \<and> category c \<notin> excluded_categories \<and>
            (\<exists>d \<in> set dets. category d = category c \<and> confidence d = confidence c) \<and>
            (\<forall>d \<in> set dets. category d = category c \<longrightarrow> confidence d \<le> confidence c)"
    if c: "c \<in> set out" for c
  proof -
    from c out obtain k where "(k, c) \<in> set T" by auto
    then have m: "map_of T k = Some c" by (rule entry)
    with wf have w: "category c = k" "0.75 \<le> confidence c" "k \<notin> excluded_categories"
      by auto
    from track_origin [OF t m]
    have o: "\<exists>d \<in> set dets. category d = category c \<and> confidence d = confidence c"
      using w(1) by auto
    have "confidence d \<le> confidence c" if d: "d \<in> set dets" "category d = category c" for d
    proof (cases "0.75 \<le> confidence d")
      case True
      with track_maximal [OF t m] d w show ?thesis by auto
    next
      case False
      with w(2) show ?thesis by simp
    qed
    with w o show ?thesis by auto
  qed
  have 3: "category d \<in> category ` set out"
    if d: "d \<in> set dets" "0.75 \<le> confidence d" "category d \<notin> excluded_categories" for d
  proof -
    from track_complete [OF t d] obtain s where m: "map_of T (category d) = Some s"
      by auto
    then have "(category d, s) \<in> set T" by (rule map_of_SomeD)
    then have "s \<in> set out" unfolding out by force
    moreover from wf m have "category s = category d" by auto
    ultimately show ?thesis by force
  qed
  from 1 2 3 show ?thesis by blast
qed

theorem analyze_outfit_result_witness:
  "segment_clothing ex_detector ''I'' = Inr (ex_dets, (100, 100)) \<and>
   analyze_outfit ex_detector ex_uuid ''I'' =
     Inr [\<lparr>category = ''shirt'', confidence = 9/10, segment_path = ''segments/u2.jpg''\<rparr>,
          \<lparr>category = ''hat'', confidence = 76/100, segment_path = ''segments/u3.jpg''\<rparr>] \<and>
   distinct (map category
     [\<lparr>category = ''shirt'', confidence = 9/10, segment_path = ''segments/u2.jpg''\<rparr>,
      \<lparr>category = ''hat'', confidence = 76/100, segment_path = ''segments/u3.jpg''\<rparr>]) \<and>
   category \<lparr>category = ''collar'', confidence = 95/100, bbox = (20, 10, 30, 15)\<rparr>
     \<in> excluded_categories"
proof -
  have d: "segment_clothing ex_detector ''I'' = Inr (ex_dets, (100, 100))"
    by (simp add: ex_detector_def)
  from analyze_outfit_result [OF d analyze_example] d analyze_example
  show ?thesis
    by (simp add: excluded_categories_def)
qed

section \<open>Query and storage embeddings use one combination rule\<close>

text \<open>
  C9: for a non-empty comment the query embedding of Search is the value
  \<open>process_image_text_pair\<close> computes for the same image and text, exceptions included, and
  both are the fused embedding of the specification: the element-wise average of the
  L2-normalised image and text embeddings. For an empty comment Search uses the
  L2-normalised image embedding alone. In particular a query with the image and the
  combined text of a successful AddItem is the vector that AddItem stored.
\<close>

theorem query_embedding_matches_storage:
  "(cmt \<noteq> [] \<and> files path = Some img \<longrightarrow>
      query_emb P img cmt = process_image_text_pair P files path cmt) \<and>
   (cmt \<noteq> [] \<and> clip_model P img cmt = Inr (ie, te) \<longrightarrow>
      query_emb P img cmt = Inr (fused_embedding ie te)) \<and>
   (files path = Some img \<and> clip_model P img tx = Inr (ie, te) \<longrightarrow>
      process_image_text_pair P files path tx = Inr (fused_embedding ie te)) \<and>
   (clip_image_features P img = Inr ie \<longrightarrow> query_emb P img [] = Inr (l2_normalize ie)) \<and>
   (add_item P s fname img c tgs = (s', Inr r) \<longrightarrow>
      query_emb P img (combined_text c (tag_list_of tgs)) = Inr (last (index s')))"
proof (intro conjI impI)
  assume "cmt \<noteq> [] \<and> files path = Some img"
  then show "query_emb P img cmt = process_image_text_pair P files path cmt"
    using query_emb_pair [of cmt files path img P] by simp
next
  assume "cmt \<noteq> [] \<and> clip_model P img cmt = Inr (ie, te)"
  then show "query_emb P img cmt = Inr (fused_embedding ie te)"
    using combined_emb_fused [of ie te] by (simp add: query_emb_def combined_emb_def)
next
  assume "files path = Some img \<and> clip_model P img tx = Inr (ie, te)"
  then show "process_image_text_pair P files path tx = Inr (fused_embedding ie te)"
    by (simp add: process_image_text_pair_def combined_emb_fused)
next
  assume "clip_image_features P img = Inr ie"
  then show "query_emb P img [] = Inr (l2_normalize ie)"
    by (simp add: query_emb_def vec_div_norm)
next
  assume "add_item P s fname img c tgs = (s', Inr r)"
  then have "process_image_text_pair P ((image_dir s)(os_path_join IMAGE_DIR fname \<mapsto> img))
               (os_path_join IMAGE_DIR fname) (combined_text c (tag_list_of tgs))
             = Inr (last (index s'))"
    by (auto simp: add_item_def Let_def split: disk_file.splits sum.splits)
  moreover have "query_emb P img (combined_text c (tag_list_of tgs)) =
      process_image_text_pair P ((image_dir s)(os_path_join IMAGE_DIR fname \<mapsto> img))
        (os_path_join IMAGE_DIR fname) (combined_text c (tag_list_of tgs))"
    by (rule query_emb_pair) (simp_all add: combined_text_nonempty)
  ultimately show "query_emb P img (combined_text c (tag_list_of tgs)) = Inr (last (index s'))"
    by simp
qed

theorem query_embedding_matches_storage_witness:
  "query_emb ex_provider ''B'' ''hat'' =
     process_image_text_pair ex_provider [''images/b.jpg'' \<mapsto> ''B''] ''images/b.jpg'' ''hat'' \<and>
   query_emb ex_provider ''B'' ''hat'' = Inr [9/10, 3/10] \<and>
   process_image_text_pair ex_provider [''images/b.jpg'' \<mapsto> ''B''] ''images/b.jpg'' ''hat''
     = Inr [9/10, 3/10] \<and>
   query_emb ex_provider ''B'' [] = Inr [4/5, 3/5] \<and>
   query_emb ex_provider ''B'' (combined_text ''hat'' (tag_list_of [])) =
     Inr (last (index (fst (add_item ex_provider ex_restarted ''b.jpg'' ''B'' ''hat'' []))))"
proof -
  have h1: "''hat'' \<noteq> [] \<and> [''images/b.jpg'' \<mapsto> ''B''] ''images/b.jpg'' = Some ''B''"
    by simp
  have h2: "clip_model ex_provider ''B'' ''hat'' = Inr ([4, 3], [1, 0])"
    by (simp add: ex_provider_def)
  have h3: "clip_image_features ex_provider ''B'' = Inr [4, 3]"
    by (simp add: ex_provider_def)
  have h4: "add_item ex_provider ex_restarted ''b.jpg'' ''B'' ''hat'' [] =
              (fst (add_item ex_provider ex_restarted ''b.jpg'' ''B'' ''hat'' []),
               Inr (Message ''Item added successfully''))"
    by (simp add: add_after_restart)
  from query_embedding_matches_storage
         [where cmt = "''hat''" and files = "[''images/b.jpg'' \<mapsto> ''B'']"
            and path = "''images/b.jpg''" and img = "''B''" and P = ex_provider
            and ie = "[4, 3]" and te = "[1, 0]" and tx = "''hat''" and s = ex_restarted
            and fname = "''b.jpg''" and c = "''hat''" and tgs = "[]"
            and s' = "fst (add_item ex_provider ex_restarted ''b.jpg'' ''B'' ''hat'' [])"
            and r = "Message ''Item added successfully''"]
       h1 h2 h3 h4
  show ?thesis
    by (simp add: fused_example)
qed

section \<open>The index file when nothing is left\<close>

text \<open>
  C10: a RebuildIndex that ends with an empty metadata sequence leaves the in-memory index
  empty and writes neither the index file nor the metadata file. A DeleteItem that ends
  with an empty metadata sequence does not write the index file, which keeps its previous
  contents; when the call went through (no item remains), the in-memory index is empty and
  \<open>metadata.json\<close> holds the empty list.
\<close>

theorem empty_result_keeps_index_file:
  "(metadata (fst (rebuild_index P s)) = [] \<longrightarrow>
      index (fst (rebuild_index P s)) = [] \<and>
      index_file (fst (rebuild_index P s)) = index_file s \<and>
      metadata_file (fst (rebuild_index P s)) = metadata_file s) \<and>
   (metadata (fst (delete_item P s fname)) = [] \<longrightarrow>
      index_file (fst (delete_item P s fname)) = index_file s \<and>
      (\<forall>m. snd (delete_item P s fname) = Inr (Message m) \<longrightarrow>
         index (fst (delete_item P s fname)) = [] \<and>
         metadata_file (fst (delete_item P s fname)) = Content []))"
proof (intro conjI impI)
  assume a: "metadata (fst (rebuild_index P s)) = []"
  then show "index (fst (rebuild_index P s)) = []"
    by (auto simp: rebuild_index_def Let_def dest: rebuild_loop_lengths
        split: disk_file.splits sum.splits prod.splits if_splits)
  from a show "index_file (fst (rebuild_index P s)) = index_file s"
    by (auto simp: rebuild_index_def Let_def dest: rebuild_loop_lengths
        split: disk_file.splits sum.splits prod.splits if_splits)
  from a show "metadata_file (fst (rebuild_index P s)) = metadata_file s"
    by (auto simp: rebuild_index_def Let_def dest: rebuild_loop_lengths
        split: disk_file.splits sum.splits prod.splits if_splits)
next
  assume a: "metadata (fst (delete_item P s fname)) = []"
  then show "index_file (fst (delete_item P s fname)) = index_file s"
    by (auto simp: delete_item_def delete_item_try_def Let_def
        split: disk_file.splits sum.splits prod.splits if_splits)
  from a show "\<forall>m. snd (delete_item P s fname) = Inr (Message m) \<longrightarrow>
         index (fst (delete_item P s fname)) = [] \<and>
         metadata_file (fst (delete_item P s fname)) = Content []"
    by (auto simp: delete_item_def delete_item_try_def Let_def
        split: disk_file.splits sum.splits prod.splits if_splits)
qed

theorem empty_result_keeps_index_file_witness:
  "metadata (fst (rebuild_index ex_provider ex_restarted)) = [] \<and>
   index (fst (rebuild_index ex_provider ex_restarted)) = [] \<and>
   index_file (fst (rebuild_index ex_provider ex_restarted)) = Content [[3/10, 9/10]] \<and>
   metadata_file (fst (rebuild_index ex_provider ex_restarted)) = Content [] \<and>
   metadata (fst (delete_item ex_provider
       (fst (add_item ex_provider ex_empty ''a.jpg'' ''A'' ''shirt'' [])) ''a.jpg'')) = [] \<and>
   snd (delete_item ex_provider
       (fst (add_item ex_provider ex_empty ''a.jpg'' ''A'' ''shirt'' [])) ''a.jpg'')
     = Inr (Message ''Item deleted successfully'') \<and>
   index (fst (delete_item ex_provider
       (fst (add_item ex_provider ex_empty ''a.jpg'' ''A'' ''shirt'' [])) ''a.jpg'')) = [] \<and>
   index_file (fst (delete_item ex_provider
       (fst (add_item ex_provider ex_empty ''a.jpg'' ''A'' ''shirt'' [])) ''a.jpg''))
     = Content [[3/10, 9/10]]"
proof -
  have f: "index_file ex_restarted = Content [[3/10, 9/10]]"
          "metadata_file ex_restarted = Content []"
    by (simp_all add: ex_restarted_def)
  have g: "index_file (fst (add_item ex_provider ex_empty ''a.jpg'' ''A'' ''shirt'' []))
             = Content [[3/10, 9/10]]"
    by (simp add: add_first_item)
  from empty_result_keeps_index_file [of ex_provider ex_restarted "''z.jpg''"]
       empty_result_keeps_index_file
         [of ex_provider "fst (add_item ex_provider ex_empty ''a.jpg'' ''A'' ''shirt'' [])" "''a.jpg''"]
       rebuild_after_restart(1) delete_only_item(1,2) f g
  show ?thesis
    by simp
qed

end
